theory Spec2Isabelle
  imports Complex_Main
begin

section \<open>The DQN agent of dqn\_agent.py\<close>

text \<open>
  The agent is a Python object whose methods mutate its fields and call collaborators:
  the gym environment, the TensorFlow session, the random number generator, the frame
  buffer, the replay memory and the statistics. The model passes the agent's state
  explicitly, returns every exception as a value (\<open>Inl\<close>), and takes the collaborators
  that are not part of the repository (environment, session, random numbers) as a record
  of functions over an external world \<open>'w\<close>. Rewards, probabilities and q-values are real
  numbers; actions, counters and sizes are natural numbers.
\<close>

subsection \<open>Data\<close>

datatype error =
    AssertionError
  | AttributeError
  | TypeError
  | ValueError
  | ZeroDivisionError
  | RuntimeError
  | SessionError

text \<open>A transition is the tuple (state, action, reward, next\_state, done).\<close>

type_synonym 's transition = "'s \<times> nat \<times> real \<times> 's \<times> bool"

fun t_state :: "'s transition \<Rightarrow> 's" where
  "t_state (state, action, reward, next_state, dn) = state"

fun t_action :: "'s transition \<Rightarrow> nat" where
  "t_action (state, action, reward, next_state, dn) = action"

fun t_reward :: "'s transition \<Rightarrow> real" where
  "t_reward (state, action, reward, next_state, dn) = reward"

fun t_next_state :: "'s transition \<Rightarrow> 's" where
  "t_next_state (state, action, reward, next_state, dn) = next_state"

fun t_done :: "'s transition \<Rightarrow> bool" where
  "t_done (state, action, reward, next_state, dn) = dn"

text \<open>The options read from \<open>config\<close>.\<close>

record config =
  frames_per_state :: nat
  minibatch_size :: nat
  init_random_action_prob :: real
  min_random_action_prob :: real
  random_action_prob_decay :: real
  reward_discount :: real
  target_update_freq :: nat
  resize_width :: nat
  resize_height :: nat

text \<open>The feed dict of the gradient step: one list per placeholder of the network.\<close>

record 's feed_dict =
  x_placeholder :: "'s list"
  q_placeholder :: "real list"
  action_placeholder :: "real list list"

text \<open>
  Every call the agent makes to a collaborator is recorded, in order, in a trace, so that
  statements about which calls happen, with which arguments and in which order, can be
  made about the model. The trace has no influence on what the agent computes.
\<close>

datatype 'o event =
    EnvReset 'o
  | EnvStep nat 'o real bool
  | FbAppend 'o
  | FbGetState "'o list"
  | MemAdd "'o list transition"
  | GetMinibatch "'o list transition list" "'o list transition list"
  | PredictQ bool "'o list list"
  | TrainOp "'o list feed_dict"
  | UpdateTarget
  | LogEpisode real nat

subsection \<open>Collaborators outside the repository\<close>

text \<open>
  The environment (\<open>env.reset\<close>, \<open>env.step\<close>, \<open>env.spec.id\<close>, \<open>env.action_space\<close>),
  Python's \<open>random\<close> module and the TensorFlow session are parameters. \<open>'w\<close> is the state
  of the outside world (environment and random generator), \<open>'o\<close> an observation, \<open>'p\<close> a
  snapshot of the network parameters. \<open>run_q_output p states\<close> is
  \<open>session.run(network.q_output)\<close> with the parameters \<open>p\<close> in force; \<open>run_train_op\<close>
  is \<open>session.run(network.train_op)\<close>, which returns the updated parameters. Both may raise.
\<close>

record ('w, 'o, 'p) collaborators =
  env_id :: string
  env_reset :: "'w \<Rightarrow> 'o \<times> 'w"
  env_step :: "nat \<Rightarrow> 'w \<Rightarrow> ('o \<times> real \<times> bool) \<times> 'w"
  action_space_n :: nat
  action_space_sample :: "'w \<Rightarrow> nat \<times> 'w"
  random_random :: "'w \<Rightarrow> real \<times> 'w"
  random_sample :: "'o list transition list \<Rightarrow> nat \<Rightarrow> 'w \<Rightarrow> 'o list transition list \<times> 'w"
  run_q_output :: "'p \<Rightarrow> 'o list list \<Rightarrow> error + real list list"
  run_train_op :: "'p \<Rightarrow> 'o list feed_dict \<Rightarrow> error + 'p"
  resize_image :: "nat \<Rightarrow> nat \<Rightarrow> 'o \<Rightarrow> 'o"

subsection \<open>Modules of the repository that are not among the sources\<close>

text \<open>
  Modelled from the spec: frame\_buffer.py (class FrameBuffer) is missing. The spec:
  \<open>append\<close> pushes a (possibly preprocessed) observation into a fixed-capacity rolling
  window, discarding the oldest when full; one initial append seeds the window, and a state
  has exactly N frames once initialised, so an append to the empty window fills all N
  places with the observation; \<open>get_state\<close> returns the current window as a composite
  state and fails if the window is not full.
\<close>

record 'o frame_buffer =
  fb_frames_per_state :: nat
  fb_preprocessor :: "'o \<Rightarrow> 'o"
  fb_frames :: "'o list"

definition FrameBuffer :: "nat \<Rightarrow> ('o \<Rightarrow> 'o) \<Rightarrow> 'o frame_buffer" where
  "FrameBuffer n pre = \<lparr>fb_frames_per_state = n, fb_preprocessor = pre, fb_frames = []\<rparr>"

definition fb_append :: "'o \<Rightarrow> 'o frame_buffer \<Rightarrow> 'o frame_buffer" where
  "fb_append ob fb =
     (if fb_frames fb = [] then
        fb\<lparr>fb_frames := replicate (fb_frames_per_state fb) (fb_preprocessor fb ob)\<rparr>
      else
        (let fs = fb_frames fb @ [fb_preprocessor fb ob]
         in fb\<lparr>fb_frames := drop (length fs - fb_frames_per_state fb) fs\<rparr>))"

definition fb_get_state :: "'o frame_buffer \<Rightarrow> error + 'o list" where
  "fb_get_state fb =
     (if length (fb_frames fb) < fb_frames_per_state fb then Inl RuntimeError
      else Inr (fb_frames fb))"

text \<open>
  Modelled from the spec: replay\_memory.py (class ReplayMemory) is missing. The spec:
  \<open>add\<close> inserts a transition and, once the store is at capacity, evicts the oldest;
  \<open>size\<close> is the occupancy; \<open>get_minibatch n\<close> draws a random sample and partitions it
  into the transitions whose done flag is false and those whose flag is true;
  \<open>get_next_states\<close> extracts the next\_state fields in order. The draw itself is the
  collaborator \<open>random_sample\<close>.
\<close>

record 'o replay_memory =
  rm_capacity :: nat
  rm_items :: "'o list transition list"

definition rm_add :: "'o list transition \<Rightarrow> 'o replay_memory \<Rightarrow> 'o replay_memory" where
  "rm_add tr m =
     (let xs = rm_items m @ [tr]
      in m\<lparr>rm_items := drop (length xs - rm_capacity m) xs\<rparr>)"

definition rm_size :: "'o replay_memory \<Rightarrow> nat" where
  "rm_size m = length (rm_items m)"

definition get_minibatch ::
  "('w, 'o, 'p) collaborators \<Rightarrow> 'o replay_memory \<Rightarrow> nat \<Rightarrow> 'w \<Rightarrow>
   ('o list transition list \<times> 'o list transition list) \<times> 'w" where
  "get_minibatch ops m n w =
     (case random_sample ops (rm_items m) n w of
        (sample, w') \<Rightarrow> ((filter (\<lambda>tr. \<not> t_done tr) sample, filter t_done sample), w'))"

definition get_next_states :: "'s transition list \<Rightarrow> 's list" where
  "get_next_states trs = map t_next_state trs"

text \<open>
  Modelled from the spec: utils.py (\<open>decay\<close>, \<open>one_hot\<close>) is missing. The spec:
  the decay law is \<open>p_new = max(min_val, p - decay_rate)\<close>; actions are encoded as one-hot
  vectors over the size of the action space.
\<close>

definition decay :: "real \<Rightarrow> real \<Rightarrow> real \<Rightarrow> real" where
  "decay val min_val decay_rate = max min_val (val - decay_rate)"

definition one_hot :: "nat \<Rightarrow> nat \<Rightarrow> real list" where
  "one_hot action n = map (\<lambda>i. if i = action then 1 else 0) [0..<n]"

text \<open>
  Modelled from the spec: stats.py (class Stats) is missing. The spec: the statistics are
  append-only per-episode pairs of reward and step count.
\<close>

definition log_episode :: "real \<Rightarrow> nat \<Rightarrow> (real \<times> nat) list \<Rightarrow> (real \<times> nat) list" where
  "log_episode reward steps st = st @ [(reward, steps)]"

subsection \<open>The agent\<close>

text \<open>
  The fields of \<open>DQNAgent\<close>. \<open>target_params\<close> does not exist before the first call of
  \<open>_update_target_network\<close>, hence the option. \<open>session_params\<close> are the variables held
  by the TensorFlow session (the online parameters).
\<close>

record ('w, 'o, 'p) agent =
  config :: config
  total_steps :: nat
  stats :: "(real \<times> nat) list"
  random_action_prob :: real
  frame_buffer :: "'o frame_buffer"
  replay_memory :: "'o replay_memory"
  target_params :: "'p option"
  session_params :: 'p
  world :: 'w
  trace :: "'o event list"

definition emit :: "'o event \<Rightarrow> ('w, 'o, 'p) agent \<Rightarrow> ('w, 'o, 'p) agent" where
  "emit ev s = s\<lparr>trace := trace s @ [ev]\<rparr>"

text \<open>The class constants.\<close>

definition RESIZE_STATE_FRAMES :: "string list" where
  "RESIZE_STATE_FRAMES = [''Pong-v0'']"

definition FAILURE_PENALTY :: "string \<rightharpoonup> real" where
  "FAILURE_PENALTY = [''CartPole-v0'' \<mapsto> - 100]"

definition get_frame_resizer :: "('w, 'o, 'p) collaborators \<Rightarrow> config \<Rightarrow> 'o \<Rightarrow> 'o" where
  "get_frame_resizer ops cfg =
     (if env_id ops \<notin> set RESIZE_STATE_FRAMES then (\<lambda>x. x)
      else resize_image ops (resize_width cfg) (resize_height cfg))"

text \<open>\<open>_update_target_network\<close>: capture the session's parameters.\<close>

definition update_target_network :: "('w, 'o, 'p) agent \<Rightarrow> ('w, 'o, 'p) agent" where
  "update_target_network s = emit UpdateTarget (s\<lparr>target_params := Some (session_params s)\<rparr>)"

text \<open>\<open>__init__\<close>: the last statement initialises the target network.\<close>

definition init ::
  "('w, 'o, 'p) collaborators \<Rightarrow> 'w \<Rightarrow> 'p \<Rightarrow> 'o replay_memory \<Rightarrow> config \<Rightarrow> ('w, 'o, 'p) agent" where
  "init ops w p rm cfg =
     update_target_network
       \<lparr>config = cfg, total_steps = 0, stats = [],
        random_action_prob = init_random_action_prob cfg,
        frame_buffer = FrameBuffer (frames_per_state cfg) (get_frame_resizer ops cfg),
        replay_memory = rm, target_params = None, session_params = p, world = w,
        trace = []\<rparr>"

text \<open>
  \<open>_predict_q_values\<close>: with \<open>use_target_network\<close> the target parameters are fed in place
  of the session's variables.
\<close>

definition predict_q_values ::
  "('w, 'o, 'p) collaborators \<Rightarrow> 'o list list \<Rightarrow> bool \<Rightarrow> ('w, 'o, 'p) agent \<Rightarrow>
   error + (real list list \<times> ('w, 'o, 'p) agent)" where
  "predict_q_values ops states use_target_network s =
     (case (if use_target_network then target_params s else Some (session_params s)) of
        None \<Rightarrow> Inl AttributeError
      | Some ps \<Rightarrow>
          (case run_q_output ops ps states of
             Inl e \<Rightarrow> Inl e
           | Inr q_values \<Rightarrow> Inr (q_values, emit (PredictQ use_target_network states) s)))"

text \<open>
  numpy's reductions. \<open>amax\<close> is the maximum of one row and raises on an empty row;
  \<open>max_axis1\<close> is \<open>q_values.max(axis=1)\<close>; \<open>argmax\<close> is \<open>q_values.argmax()\<close>, the first
  index of the maximum of the flattened array.
\<close>

fun amax :: "real list \<Rightarrow> error + real" where
  "amax [] = Inl ValueError"
| "amax (x # xs) = Inr (fold max xs x)"

fun max_axis1 :: "real list list \<Rightarrow> error + real list" where
  "max_axis1 [] = Inr []"
| "max_axis1 (row # rows) =
     (case amax row of
        Inl e \<Rightarrow> Inl e
      | Inr m \<Rightarrow> (case max_axis1 rows of Inl e \<Rightarrow> Inl e | Inr ms \<Rightarrow> Inr (m # ms)))"

fun first_index :: "real \<Rightarrow> real list \<Rightarrow> nat" where
  "first_index m [] = 0"
| "first_index m (x # xs) = (if x = m then 0 else Suc (first_index m xs))"

definition argmax :: "real list list \<Rightarrow> error + nat" where
  "argmax q_values =
     (case amax (concat q_values) of
        Inl e \<Rightarrow> Inl e
      | Inr m \<Rightarrow> Inr (first_index m (concat q_values)))"

text \<open>\<open>_decay_random_action_prob\<close>, \<open>_roll_random_action_dice\<close> and \<open>_pick_action\<close>.\<close>

definition decay_random_action_prob :: "('w, 'o, 'p) agent \<Rightarrow> ('w, 'o, 'p) agent" where
  "decay_random_action_prob s =
     s\<lparr>random_action_prob :=
         decay (random_action_prob s) (min_random_action_prob (config s))
           (random_action_prob_decay (config s))\<rparr>"

definition roll_random_action_dice ::
  "('w, 'o, 'p) collaborators \<Rightarrow> ('w, 'o, 'p) agent \<Rightarrow> bool \<times> ('w, 'o, 'p) agent" where
  "roll_random_action_dice ops s =
     (let s1 = decay_random_action_prob s
      in case random_random ops (world s1) of
           (r, w) \<Rightarrow> (r < random_action_prob s1, s1\<lparr>world := w\<rparr>))"

definition pick_action ::
  "('w, 'o, 'p) collaborators \<Rightarrow> 'o list \<Rightarrow> ('w, 'o, 'p) agent \<Rightarrow>
   error + (nat \<times> ('w, 'o, 'p) agent)" where
  "pick_action ops state s =
     (case roll_random_action_dice ops s of
        (True, s1) \<Rightarrow>
          (case action_space_sample ops (world s1) of (a, w) \<Rightarrow> Inr (a, s1\<lparr>world := w\<rparr>))
      | (False, s1) \<Rightarrow>
          (case predict_q_values ops [state] False s1 of
             Inl e \<Rightarrow> Inl e
           | Inr (q_values, s2) \<Rightarrow>
               (case argmax q_values of Inl e \<Rightarrow> Inl e | Inr a \<Rightarrow> Inr (a, s2))))"

text \<open>
  \<open>_get_minibatch_feed_dict\<close>. \<open>zip_longest\<close> pairs the chained minibatch with the target
  q-values and pads the shorter side; \<open>None\<close> stands for the fill value. The loop unpacks
  each item as a 5-tuple, which raises on the fill value, and reads a padded target as 0.
\<close>

fun zip_longest :: "'a list \<Rightarrow> 'b list \<Rightarrow> ('a option \<times> 'b option) list" where
  "zip_longest [] [] = []"
| "zip_longest (x # xs) [] = (Some x, None) # zip_longest xs []"
| "zip_longest [] (y # ys) = (None, Some y) # zip_longest [] ys"
| "zip_longest (x # xs) (y # ys) = (Some x, Some y) # zip_longest xs ys"

fun feed_loop ::
  "real \<Rightarrow> nat \<Rightarrow> ('s transition option \<times> real option) list \<Rightarrow> 's feed_dict \<Rightarrow>
   error + 's feed_dict" where
  "feed_loop discount n [] fd = Inr fd"
| "feed_loop discount n ((None, tq) # rest) fd = Inl TypeError"
| "feed_loop discount n ((Some item, tq) # rest) fd =
     (let target_q = (case tq of None \<Rightarrow> 0 | Some v \<Rightarrow> v)
      in feed_loop discount n rest
           (fd\<lparr>x_placeholder := x_placeholder fd @ [t_state item],
               q_placeholder := q_placeholder fd @ [t_reward item + discount * target_q],
               action_placeholder := action_placeholder fd @ [one_hot (t_action item) n]\<rparr>))"

definition get_minibatch_feed_dict ::
  "('w, 'o, 'p) collaborators \<Rightarrow> config \<Rightarrow> real list \<Rightarrow> 'o list transition list \<Rightarrow>
   'o list transition list \<Rightarrow> error + 'o list feed_dict" where
  "get_minibatch_feed_dict ops cfg target_q_values non_terminal_minibatch terminal_minibatch =
     (if length target_q_values \<noteq> length non_terminal_minibatch then Inl AssertionError
      else feed_loop (reward_discount cfg) (action_space_n ops)
             (zip_longest (non_terminal_minibatch @ terminal_minibatch) target_q_values)
             \<lparr>x_placeholder = [], q_placeholder = [], action_placeholder = []\<rparr>)"

text \<open>\<open>_train_minibatch\<close>.\<close>

definition train_minibatch ::
  "('w, 'o, 'p) collaborators \<Rightarrow> nat \<Rightarrow> ('w, 'o, 'p) agent \<Rightarrow> error + ('w, 'o, 'p) agent" where
  "train_minibatch ops n s =
     (if rm_size (replay_memory s) < n then Inr s
      else
        case get_minibatch ops (replay_memory s) n (world s) of
          ((non_terminal_minibatch, terminal_minibatch), w) \<Rightarrow>
            (let s1 = emit (GetMinibatch non_terminal_minibatch terminal_minibatch)
                        (s\<lparr>world := w\<rparr>);
                 next_states = get_next_states non_terminal_minibatch
             in case predict_q_values ops next_states True s1 of
                  Inl e \<Rightarrow> Inl e
                | Inr (q_values, s2) \<Rightarrow>
                    (case max_axis1 q_values of
                       Inl e \<Rightarrow> Inl e
                     | Inr max_q_values \<Rightarrow>
                         (case get_minibatch_feed_dict ops (config s2) max_q_values
                                 non_terminal_minibatch terminal_minibatch of
                            Inl e \<Rightarrow> Inl e
                          | Inr fd \<Rightarrow>
                              (case run_train_op ops (session_params s2) fd of
                                 Inl e \<Rightarrow> Inl e
                               | Inr ps \<Rightarrow>
                                   Inr (emit (TrainOp fd) (s2\<lparr>session_params := ps\<rparr>)))))))"

text \<open>
  \<open>train_episode\<close>. \<open>stored_reward\<close> is the reward after the lines
  \<open>if done: reward = self.FAILURE_PENALTY.get(self.env.spec.id, reward)\<close>.
  \<open>episode_step\<close> is the body of the while loop up to the call of \<open>_train_minibatch\<close>;
  \<open>episode_loop\<close> is the loop, which also advances both step counters.
\<close>

definition stored_reward :: "('w, 'o, 'p) collaborators \<Rightarrow> real \<Rightarrow> bool \<Rightarrow> real" where
  "stored_reward ops reward dn =
     (if dn then (case FAILURE_PENALTY (env_id ops) of None \<Rightarrow> reward | Some p \<Rightarrow> p)
      else reward)"

definition episode_step ::
  "('w, 'o, 'p) collaborators \<Rightarrow> 'o list \<Rightarrow> real \<Rightarrow> ('w, 'o, 'p) agent \<Rightarrow>
   error + (('o list \<times> real \<times> bool) \<times> ('w, 'o, 'p) agent)" where
  "episode_step ops state total_reward s =
     (case pick_action ops state s of
        Inl e \<Rightarrow> Inl e
      | Inr (action, s1) \<Rightarrow>
          (case env_step ops action (world s1) of
             ((observation, reward, dn), w) \<Rightarrow>
               (let s2 = emit (EnvStep action observation reward dn) (s1\<lparr>world := w\<rparr>);
                    total_reward' = total_reward + reward;
                    reward' = stored_reward ops reward dn;
                    s3 = emit (FbAppend observation)
                           (s2\<lparr>frame_buffer := fb_append observation (frame_buffer s2)\<rparr>)
                in case fb_get_state (frame_buffer s3) of
                     Inl e \<Rightarrow> Inl e
                   | Inr next_state \<Rightarrow>
                       (let s4 = emit (FbGetState next_state) s3;
                            tr = (state, action, reward', next_state, dn);
                            s5 = emit (MemAdd tr)
                                   (s4\<lparr>replay_memory := rm_add tr (replay_memory s4)\<rparr>)
                        in case train_minibatch ops (minibatch_size (config s5)) s5 of
                             Inl e \<Rightarrow> Inl e
                           | Inr s6 \<Rightarrow> Inr ((next_state, total_reward', dn), s6)))))"

function episode_loop ::
  "('w, 'o, 'p) collaborators \<Rightarrow> nat \<Rightarrow> 'o list \<Rightarrow> real \<Rightarrow> nat \<Rightarrow> bool \<Rightarrow>
   ('w, 'o, 'p) agent \<Rightarrow> error + ((real \<times> nat) \<times> ('w, 'o, 'p) agent)" where
  "episode_loop ops max_steps state total_reward steps dn s =
     (if \<not> dn \<and> steps < max_steps then
        (case episode_step ops state total_reward s of
           Inl e \<Rightarrow> Inl e
         | Inr ((next_state, total_reward', dn'), s') \<Rightarrow>
             episode_loop ops max_steps next_state total_reward' (steps + 1) dn'
               (s'\<lparr>total_steps := total_steps s' + 1\<rparr>))
      else Inr ((total_reward, steps), s))"
  by pat_completeness auto
termination
  by (relation "measure (\<lambda>(ops, max_steps, state, total_reward, steps, dn, s). max_steps - steps)")
     auto

definition train_episode ::
  "('w, 'o, 'p) collaborators \<Rightarrow> nat \<Rightarrow> ('w, 'o, 'p) agent \<Rightarrow>
   error + ((real \<times> nat) \<times> ('w, 'o, 'p) agent)" where
  "train_episode ops max_steps s =
     (case env_reset ops (world s) of
        (observation, w) \<Rightarrow>
          (let s1 = emit (EnvReset observation) (s\<lparr>world := w\<rparr>);
               s2 = emit (FbAppend observation)
                      (s1\<lparr>frame_buffer := fb_append observation (frame_buffer s1)\<rparr>)
           in case fb_get_state (frame_buffer s2) of
                Inl e \<Rightarrow> Inl e
              | Inr state \<Rightarrow>
                  episode_loop ops max_steps state 0 0 False (emit (FbGetState state) s2)))"

text \<open>
  \<open>train\<close>: the loop over \<open>range(num_episodes)\<close>, by recursion on the episodes left. The
  supervisor is optional; its \<open>should_stop\<close> reads the outside world. The logging call has
  no effect on the agent and is left out.
\<close>

fun train ::
  "('w, 'o, 'p) collaborators \<Rightarrow> nat \<Rightarrow> nat \<Rightarrow> ('w \<Rightarrow> bool \<times> 'w) option \<Rightarrow>
   ('w, 'o, 'p) agent \<Rightarrow> error + ('w, 'o, 'p) agent" where
  "train ops 0 max_steps_per_episode supervisor s = Inr s"
| "train ops (Suc k) max_steps_per_episode supervisor s =
     (case train_episode ops max_steps_per_episode s of
        Inl e \<Rightarrow> Inl e
      | Inr ((reward, steps), s1) \<Rightarrow>
          (let s2 = emit (LogEpisode reward steps)
                      (s1\<lparr>stats := log_episode reward steps (stats s1)\<rparr>)
           in if target_update_freq (config s2) = 0 then Inl ZeroDivisionError
              else
                (let s3 = (if total_steps s2 mod target_update_freq (config s2) = 0
                           then update_target_network s2 else s2)
                 in case supervisor of
                      None \<Rightarrow> train ops k max_steps_per_episode supervisor s3
                    | Some should_stop \<Rightarrow>
                        (case should_stop (world s3) of
                           (stop, w) \<Rightarrow>
                             if stop then Inr (s3\<lparr>world := w\<rparr>)
                             else train ops k max_steps_per_episode supervisor
                                    (s3\<lparr>world := w\<rparr>)))))"

subsection \<open>A small concrete world\<close>

text \<open>
  A deterministic environment whose episodes last two steps with reward 1 per step, a
  network whose second action has value \<open>p + 5\<close> under the parameters \<open>p\<close>, a gradient
  step that counts, and a sampler that takes the oldest transitions. It is used to run the
  model on concrete inputs.
\<close>

definition demo_ops :: "(nat, nat, nat) collaborators" where
  "demo_ops =
     \<lparr>env_id = ''CartPole-v0'',
      env_reset = (\<lambda>w. (0, 0)),
      env_step = (\<lambda>a w. ((Suc w, 1, 2 \<le> Suc w), Suc w)),
      action_space_n = 2,
      action_space_sample = (\<lambda>w. (0, w)),
      random_random = (\<lambda>w. (0, w)),
      random_sample = (\<lambda>xs n w. (take n xs, w)),
      run_q_output = (\<lambda>p states. Inr (map (\<lambda>st. [0, real p + 5]) states)),
      run_train_op = (\<lambda>p fd. Inr (Suc p)),
      resize_image = (\<lambda>wd ht ob. ob)\<rparr>"

definition demo_config :: config where
  "demo_config =
     \<lparr>frames_per_state = 1, minibatch_size = 2, init_random_action_prob = 1,
      min_random_action_prob = 1 / 10, random_action_prob_decay = 1 / 100,
      reward_discount = 9 / 10, target_update_freq = 3, resize_width = 0, resize_height = 0\<rparr>"

definition demo_memory :: "nat replay_memory" where
  "demo_memory =
     \<lparr>rm_capacity = 3,
      rm_items = [([0], 1, 1, [1], False), ([1], 1, - 100, [2], True)]\<rparr>"

definition demo_agent :: "(nat, nat, nat) agent" where
  "demo_agent = init demo_ops 0 0 demo_memory demo_config"

text \<open>A memory that holds terminal transitions only.\<close>

definition terminal_memory :: "nat replay_memory" where
  "terminal_memory =
     \<lparr>rm_capacity = 3,
      rm_items = [([1], 1, - 100, [2], True), ([1], 0, - 100, [2], True)]\<rparr>"

definition terminal_agent :: "(nat, nat, nat) agent" where
  "terminal_agent = init demo_ops 0 0 terminal_memory demo_config"

text \<open>The same world with a random draw of 1, so that the greedy branch is taken.\<close>

definition greedy_ops :: "(nat, nat, nat) collaborators" where
  "greedy_ops = demo_ops\<lparr>random_random := (\<lambda>w. (1, w))\<rparr>"

text \<open>
  A sequence of action selections, one per state, as the loop of an episode makes them;
  the result lists the exploration probability after each call.
\<close>

fun pick_actions ::
  "('w, 'o, 'p) collaborators \<Rightarrow> 'o list list \<Rightarrow> ('w, 'o, 'p) agent \<Rightarrow>
   error + (real list \<times> ('w, 'o, 'p) agent)" where
  "pick_actions ops [] s = Inr ([], s)"
| "pick_actions ops (state # states) s =
     (case pick_action ops state s of
        Inl e \<Rightarrow> Inl e
      | Inr (a, s1) \<Rightarrow>
          (case pick_actions ops states s1 of
             Inl e \<Rightarrow> Inl e
           | Inr (ps, s2) \<Rightarrow> Inr (random_action_prob s1 # ps, s2)))"

text \<open>An agent configured with an initial exploration probability below the floor.\<close>

definition low_agent :: "(nat, nat, nat) agent" where
  "low_agent = init demo_ops 0 0 demo_memory (demo_config\<lparr>init_random_action_prob := 0\<rparr>)"

text \<open>
  Reading a trace: the raw reward and done flag of every environment step, and the reward
  of every transition added to the replay memory, in order.
\<close>

fun env_steps :: "'o event list \<Rightarrow> (real \<times> bool) list" where
  "env_steps [] = []"
| "env_steps (EnvStep a ob r d # es) = (r, d) # env_steps es"
| "env_steps (e # es) = env_steps es"

fun mem_rewards :: "'o event list \<Rightarrow> real list" where
  "mem_rewards [] = []"
| "mem_rewards (MemAdd tr # es) = t_reward tr # mem_rewards es"
| "mem_rewards (e # es) = mem_rewards es"

text \<open>
  Reading a trace: the state returned by the first \<open>get_state\<close> after each reset of the
  environment. The flag tells whether a reset has been seen since the last \<open>get_state\<close>.
\<close>

fun first_states :: "bool \<Rightarrow> 'o event list \<Rightarrow> 'o list list" where
  "first_states b [] = []"
| "first_states b (EnvReset ob # es) = first_states True es"
| "first_states b (FbGetState st # es) =
     (if b then st # first_states False es else first_states False es)"
| "first_states b (e # es) = first_states b es"

text \<open>
  A freshly constructed agent with two frames per state, and the same agent after a
  training run of one episode.
\<close>

definition two_frame_agent :: "(nat, nat, nat) agent" where
  "two_frame_agent = init demo_ops 0 0 demo_memory (demo_config\<lparr>frames_per_state := 2\<rparr>)"

definition after_first_episode :: "(nat, nat, nat) agent" where
  "after_first_episode =
     (case train demo_ops 1 10 None two_frame_agent of
        Inl e \<Rightarrow> two_frame_agent
      | Inr s \<Rightarrow> s)"

text \<open>
  The same world with a session that refuses an empty batch of states, as a TensorFlow
  session does when the bare list \<open>[]\<close>, of shape (0,), is fed for a placeholder of
  rank 2.
\<close>

definition strict_ops :: "(nat, nat, nat) collaborators" where
  "strict_ops =
     demo_ops\<lparr>run_q_output :=
       (\<lambda>p states. if states = [] then Inl ValueError
                    else Inr (map (\<lambda>st. [0, real p + 5]) states))\<rparr>"

section \<open>Properties\<close>

subsection \<open>The reductions and the feed dict\<close>

lemma amax_Inr:
  assumes "amax row = Inr m"
  shows "row \<noteq> [] \<and> m = Max (set row)"
proof (cases row)
  case Nil
  with assms show ?thesis by simp
next
  case (Cons x xs)
  have "Max (set (x # xs)) = fold max xs x" by (rule Max.set_eq_fold)
  with Cons assms show ?thesis by auto
qed

lemma max_axis1_length: "max_axis1 q = Inr ms \<Longrightarrow> length ms = length q"
  by (induction q arbitrary: ms) (auto split: sum.splits)

lemma max_axis1_nth:
  "max_axis1 q = Inr ms \<Longrightarrow> i < length q \<Longrightarrow> q ! i \<noteq> [] \<and> ms ! i = Max (set (q ! i))"
proof (induction q arbitrary: ms i)
  case Nil
  then show ?case by simp
next
  case (Cons row rows)
  from Cons.prems(1) obtain m ms' where
    m: "amax row = Inr m" and ms': "max_axis1 rows = Inr ms'" and eq: "ms = m # ms'"
    by (auto split: sum.splits)
  show ?case
  proof (cases i)
    case 0
    with m eq show ?thesis using amax_Inr by simp
  next
    case (Suc j)
    with Cons.prems(2) have "j < length rows" by simp
    from Cons.IH [OF ms' this] Suc eq show ?thesis by simp
  qed
qed

lemma max_axis1_total: "\<forall>row \<in> set q. row \<noteq> [] \<Longrightarrow> \<exists>ms. max_axis1 q = Inr ms"
proof (induction q)
  case Nil
  then show ?case by simp
next
  case (Cons row rows)
  then obtain ms where "max_axis1 rows = Inr ms" by auto
  moreover from Cons.prems obtain x xs where "row = x # xs" by (cases row) auto
  ultimately show ?case by simp
qed

lemma feed_loop_zip_longest:
  "length tq \<le> length items \<Longrightarrow>
   feed_loop discount n (zip_longest items tq) fd =
     Inr \<lparr>x_placeholder = x_placeholder fd @ map t_state items,
          q_placeholder = q_placeholder fd @
            map (\<lambda>(item, v). t_reward item + discount * v)
              (zip items (tq @ replicate (length items - length tq) 0)),
          action_placeholder = action_placeholder fd @
            map (\<lambda>item. one_hot (t_action item) n) items\<rparr>"
proof (induction items tq arbitrary: fd rule: zip_longest.induct)
  case 1
  then show ?case by simp
next
  case (2 x xs)
  then show ?case by simp
next
  case (3 y ys)
  then show ?case by simp
next
  case (4 x xs y ys)
  then show ?case by simp
qed

lemma get_minibatch_feed_dict_Inr:
  assumes "length tq = length nt"
  shows "get_minibatch_feed_dict ops cfg tq nt t =
     Inr \<lparr>x_placeholder = map t_state (nt @ t),
          q_placeholder =
            map (\<lambda>(item, v). t_reward item + reward_discount cfg * v) (zip nt tq) @
            map t_reward t,
          action_placeholder = map (\<lambda>item. one_hot (t_action item) (action_space_n ops)) (nt @ t)\<rparr>"
proof -
  have "map (\<lambda>(item, v). t_reward item + reward_discount cfg * v)
          (zip (nt @ t) (tq @ replicate (length t) 0)) =
        map (\<lambda>(item, v). t_reward item + reward_discount cfg * v) (zip nt tq) @ map t_reward t"
    using assms by (simp add: zip_replicate2 map_zip_map2 comp_def)
  then show ?thesis
    using assms by (simp add: get_minibatch_feed_dict_def feed_loop_zip_longest)
qed

lemma get_minibatch_feed_dict_assert:
  "get_minibatch_feed_dict ops cfg tq nt t = Inr fd \<Longrightarrow> length tq = length nt"
  by (auto simp: get_minibatch_feed_dict_def split: if_splits)

subsection \<open>One training step on a minibatch\<close>

lemma get_minibatch_partition:
  assumes "get_minibatch ops m n w = ((nt, t), w')"
  shows "(\<forall>tr \<in> set nt. \<not> t_done tr) \<and> (\<forall>tr \<in> set t. t_done tr)"
  using assms by (auto simp: get_minibatch_def split: prod.splits)

lemma train_minibatch_Inr:
  assumes ok: "train_minibatch ops n s = Inr s'"
    and enough: "n \<le> rm_size (replay_memory s)"
  obtains nt t w tp qs mq fd ps where
    "get_minibatch ops (replay_memory s) n (world s) = ((nt, t), w)"
    "target_params s = Some tp"
    "run_q_output ops tp (get_next_states nt) = Inr qs"
    "max_axis1 qs = Inr mq"
    "get_minibatch_feed_dict ops (config s) mq nt t = Inr fd"
    "run_train_op ops (session_params s) fd = Inr ps"
    "s' = s\<lparr>world := w, session_params := ps,
            trace := trace s @ [GetMinibatch nt t, PredictQ True (get_next_states nt), TrainOp fd]\<rparr>"
proof -
  obtain nt t w where gm: "get_minibatch ops (replay_memory s) n (world s) = ((nt, t), w)"
    by (metis surj_pair)
  define s1 where "s1 = emit (GetMinibatch nt t) (s\<lparr>world := w\<rparr>)"
  from ok enough gm obtain qv s2 where
    pq: "predict_q_values ops (get_next_states nt) True s1 = Inr (qv, s2)"
    by (auto simp: train_minibatch_def Let_def s1_def split: sum.splits)
  from pq obtain tp where tp: "target_params s = Some tp"
    and rq: "run_q_output ops tp (get_next_states nt) = Inr qv"
    and s2: "s2 = emit (PredictQ True (get_next_states nt)) s1"
    by (auto simp: predict_q_values_def s1_def emit_def split: option.splits sum.splits)
  from ok enough gm pq obtain mq where mq: "max_axis1 qv = Inr mq"
    by (auto simp: train_minibatch_def Let_def s1_def split: sum.splits)
  from ok enough gm pq mq obtain fd where
    fd: "get_minibatch_feed_dict ops (config s2) mq nt t = Inr fd"
    by (auto simp: train_minibatch_def Let_def s1_def split: sum.splits)
  from ok enough gm pq mq fd obtain ps where
    ps: "run_train_op ops (session_params s2) fd = Inr ps"
    and s': "s' = emit (TrainOp fd) (s2\<lparr>session_params := ps\<rparr>)"
    by (auto simp: train_minibatch_def Let_def s1_def split: sum.splits)
  have c: "config s2 = config s" and sp: "session_params s2 = session_params s"
    by (simp_all add: s2 s1_def emit_def)
  have "s' = s\<lparr>world := w, session_params := ps,
            trace := trace s @ [GetMinibatch nt t, PredictQ True (get_next_states nt), TrainOp fd]\<rparr>"
    by (simp add: s' s2 s1_def emit_def)
  with gm tp rq mq fd ps c sp show thesis
    using that by simp
qed

text \<open>
  Claim C1. When the training step runs (the memory holds at least a minibatch) and returns,
  the gradient step is fed, for each transition of the sampled minibatch, the expected value
  \<open>reward + reward_discount * max_q\<close> if the transition is not terminal, where \<open>max_q\<close> is
  the maximum of the row that the target network returns for the transition's next state in
  the batch of the non-terminal next states, and exactly the stored reward if it is
  terminal, whatever the discount is.
\<close>

theorem expected_q_values:
  assumes ok: "train_minibatch ops n s = Inr s'"
    and enough: "n \<le> rm_size (replay_memory s)"
  shows "\<exists>nt t tp qs fd.
     fst (get_minibatch ops (replay_memory s) n (world s)) = (nt, t) \<and>
     target_params s = Some tp \<and>
     run_q_output ops tp (map t_next_state nt) = Inr qs \<and>
     trace s' = trace s @
       [GetMinibatch nt t, PredictQ True (map t_next_state nt), TrainOp fd] \<and>
     length (q_placeholder fd) = length (nt @ t) \<and>
     (\<forall>i < length (nt @ t).
        q_placeholder fd ! i =
          (if t_done ((nt @ t) ! i) then t_reward ((nt @ t) ! i)
           else t_reward ((nt @ t) ! i) +
                reward_discount (config s) * Max (set (qs ! i))))"
proof -
  from ok enough obtain nt t w tp qs mq fd ps where
    gm: "get_minibatch ops (replay_memory s) n (world s) = ((nt, t), w)"
    and tp: "target_params s = Some tp"
    and rq: "run_q_output ops tp (get_next_states nt) = Inr qs"
    and mq: "max_axis1 qs = Inr mq"
    and fd: "get_minibatch_feed_dict ops (config s) mq nt t = Inr fd"
    and s': "s' = s\<lparr>world := w, session_params := ps,
            trace := trace s @ [GetMinibatch nt t, PredictQ True (get_next_states nt), TrainOp fd]\<rparr>"
    by (rule train_minibatch_Inr)
  have len: "length mq = length nt"
    using fd by (rule get_minibatch_feed_dict_assert)
  have lenq: "length qs = length nt"
    using max_axis1_length [OF mq] len by simp
  have q: "q_placeholder fd =
      map (\<lambda>(item, v). t_reward item + reward_discount (config s) * v) (zip nt mq) @
      map t_reward t"
    using fd get_minibatch_feed_dict_Inr [OF len, of ops "config s" t] by auto
  have part: "(\<forall>tr \<in> set nt. \<not> t_done tr) \<and> (\<forall>tr \<in> set t. t_done tr)"
    using gm by (rule get_minibatch_partition)
  have nth: "q_placeholder fd ! i =
          (if t_done ((nt @ t) ! i) then t_reward ((nt @ t) ! i)
           else t_reward ((nt @ t) ! i) +
                reward_discount (config s) * Max (set (qs ! i)))"
    if i: "i < length (nt @ t)" for i
  proof (cases "i < length nt")
    case True
    then have "\<not> t_done (nt ! i)" using part by simp
    moreover have "mq ! i = Max (set (qs ! i))"
      using max_axis1_nth [OF mq, of i] True lenq by simp
    ultimately show ?thesis
      using True len by (simp add: q nth_append)
  next
    case False
    with i have "i - length nt < length t" by simp
    then have "t_done (t ! (i - length nt))" using part by simp
    then show ?thesis
      using False len i by (simp add: q nth_append)
  qed
  have "trace s' = trace s @
       [GetMinibatch nt t, PredictQ True (map t_next_state nt), TrainOp fd]"
    by (simp add: s' get_next_states_def)
  moreover have "length (q_placeholder fd) = length (nt @ t)"
    using len by (simp add: q)
  ultimately show ?thesis
    using gm tp rq nth by (auto simp: get_next_states_def)
qed

lemma demo_train_minibatch:
  "train_minibatch demo_ops 2 demo_agent =
     Inr (demo_agent\<lparr>session_params := 1,
            trace := [UpdateTarget,
              GetMinibatch [([0], 1, 1, [1], False)] [([1], 1, - 100, [2], True)],
              PredictQ True [[1]],
              TrainOp \<lparr>x_placeholder = [[0], [1]], q_placeholder = [11 / 2, - 100],
                action_placeholder = [[0, 1], [0, 1]]\<rparr>]\<rparr>)"
  by (simp add: train_minibatch_def demo_agent_def init_def update_target_network_def
      emit_def demo_memory_def rm_size_def get_minibatch_def demo_ops_def
      get_next_states_def predict_q_values_def get_minibatch_feed_dict_def demo_config_def
      one_hot_def upt_rec)

lemma demo_enough: "2 \<le> rm_size (replay_memory demo_agent)"
  by (simp add: demo_agent_def init_def update_target_network_def emit_def demo_memory_def
      rm_size_def)

lemma demo_get_minibatch:
  "fst (get_minibatch demo_ops (replay_memory demo_agent) 2 (world demo_agent)) =
     ([([0], 1, 1, [1], False)], [([1], 1, - 100, [2], True)])"
  by (simp add: demo_agent_def init_def update_target_network_def emit_def demo_memory_def
      get_minibatch_def demo_ops_def)

lemma demo_target: "target_params demo_agent = Some 0"
  by (simp add: demo_agent_def init_def update_target_network_def emit_def)

lemma demo_q_output: "run_q_output demo_ops 0 [[1]] = Inr [[0, 5]]"
  by (simp add: demo_ops_def)

theorem expected_q_values_witness:
  "2 \<le> rm_size (replay_memory demo_agent) \<and>
   (\<exists>s' fd. train_minibatch demo_ops 2 demo_agent = Inr s' \<and>
      last (trace s') = TrainOp fd \<and>
      q_placeholder fd ! 0 = 11 / 2 \<and> q_placeholder fd ! 1 = - 100)"
proof -
  obtain s' where h1: "train_minibatch demo_ops 2 demo_agent = Inr s'"
    using demo_train_minibatch by blast
  from expected_q_values [OF h1 demo_enough] obtain nt t tp qs fd where
    gm: "fst (get_minibatch demo_ops (replay_memory demo_agent) 2 (world demo_agent)) = (nt, t)"
    and tp: "target_params demo_agent = Some tp"
    and rq: "run_q_output demo_ops tp (map t_next_state nt) = Inr qs"
    and tr: "trace s' = trace demo_agent @
       [GetMinibatch nt t, PredictQ True (map t_next_state nt), TrainOp fd]"
    and nth: "\<forall>i < length (nt @ t).
        q_placeholder fd ! i =
          (if t_done ((nt @ t) ! i) then t_reward ((nt @ t) ! i)
           else t_reward ((nt @ t) ! i) +
                reward_discount (config demo_agent) * Max (set (qs ! i)))"
    by blast
  from gm demo_get_minibatch have nt: "nt = [([0], 1, 1, [1], False)]"
    and t: "t = [([1], 1, - 100, [2], True)]" by simp_all
  from tp demo_target have "tp = 0" by simp
  with rq nt demo_q_output have qs: "qs = [[0, 5]]" by simp
  have disc: "reward_discount (config demo_agent) = 9 / 10"
    by (simp add: demo_agent_def init_def update_target_network_def emit_def demo_config_def)
  from nth have "q_placeholder fd ! 0 = 11 / 2"
    by (simp add: nt t qs disc)
  moreover from nth have "q_placeholder fd ! 1 = - 100"
    by (simp add: nt t qs disc)
  moreover from tr have "last (trace s') = TrainOp fd" by simp
  ultimately show ?thesis using h1 demo_enough by blast
qed

text \<open>
  Claim C2. In the feed dict of the gradient step, the i-th state, the i-th expected value
  and the i-th one-hot action all come from the i-th transition of the minibatch chained as
  non-terminal transitions followed by terminal ones; the positions before the length of
  the non-terminal part are exactly those of the transitions that are not done.
\<close>

theorem feed_dict_alignment:
  assumes ok: "train_minibatch ops n s = Inr s'"
    and enough: "n \<le> rm_size (replay_memory s)"
  shows "\<exists>nt t tp qs mq fd.
     fst (get_minibatch ops (replay_memory s) n (world s)) = (nt, t) \<and>
     target_params s = Some tp \<and>
     run_q_output ops tp (map t_next_state nt) = Inr qs \<and>
     max_axis1 qs = Inr mq \<and>
     last (trace s') = TrainOp fd \<and>
     length (x_placeholder fd) = length (nt @ t) \<and>
     length (q_placeholder fd) = length (nt @ t) \<and>
     length (action_placeholder fd) = length (nt @ t) \<and>
     (\<forall>i < length (nt @ t).
        x_placeholder fd ! i = t_state ((nt @ t) ! i) \<and>
        q_placeholder fd ! i =
          t_reward ((nt @ t) ! i) +
          reward_discount (config s) * ((mq @ replicate (length t) 0) ! i) \<and>
        action_placeholder fd ! i = one_hot (t_action ((nt @ t) ! i)) (action_space_n ops) \<and>
        (i < length nt \<longleftrightarrow> \<not> t_done ((nt @ t) ! i)))"
proof -
  from ok enough obtain nt t w tp qs mq fd ps where
    gm: "get_minibatch ops (replay_memory s) n (world s) = ((nt, t), w)"
    and tp: "target_params s = Some tp"
    and rq: "run_q_output ops tp (get_next_states nt) = Inr qs"
    and mq: "max_axis1 qs = Inr mq"
    and fd: "get_minibatch_feed_dict ops (config s) mq nt t = Inr fd"
    and s': "s' = s\<lparr>world := w, session_params := ps,
            trace := trace s @ [GetMinibatch nt t, PredictQ True (get_next_states nt), TrainOp fd]\<rparr>"
    by (rule train_minibatch_Inr)
  have len: "length mq = length nt"
    using fd by (rule get_minibatch_feed_dict_assert)
  have fd_eq: "fd =
     \<lparr>x_placeholder = map t_state (nt @ t),
      q_placeholder =
        map (\<lambda>(item, v). t_reward item + reward_discount (config s) * v) (zip nt mq) @
        map t_reward t,
      action_placeholder = map (\<lambda>item. one_hot (t_action item) (action_space_n ops)) (nt @ t)\<rparr>"
    using fd get_minibatch_feed_dict_Inr [OF len, of ops "config s" t] by simp
  have part: "(\<forall>tr \<in> set nt. \<not> t_done tr) \<and> (\<forall>tr \<in> set t. t_done tr)"
    using gm by (rule get_minibatch_partition)
  have nth: "x_placeholder fd ! i = t_state ((nt @ t) ! i) \<and>
        q_placeholder fd ! i =
          t_reward ((nt @ t) ! i) +
          reward_discount (config s) * ((mq @ replicate (length t) 0) ! i) \<and>
        action_placeholder fd ! i = one_hot (t_action ((nt @ t) ! i)) (action_space_n ops) \<and>
        (i < length nt \<longleftrightarrow> \<not> t_done ((nt @ t) ! i))"
    if i: "i < length (nt @ t)" for i
  proof (cases "i < length nt")
    case True
    then have "\<not> t_done (nt ! i)" using part by simp
    then show ?thesis
      using True len by (simp add: fd_eq nth_append)
  next
    case False
    with i have lt: "i - length nt < length t" by simp
    then have "t_done (t ! (i - length nt))" using part by simp
    then show ?thesis
      using False len i lt by (simp add: fd_eq nth_append)
  qed
  have "last (trace s') = TrainOp fd"
    by (simp add: s')
  moreover have "length (x_placeholder fd) = length (nt @ t)"
    "length (q_placeholder fd) = length (nt @ t)"
    "length (action_placeholder fd) = length (nt @ t)"
    using len by (simp_all add: fd_eq)
  ultimately show ?thesis
    using gm tp rq mq nth by (auto simp: get_next_states_def)
qed

theorem feed_dict_alignment_witness:
  "2 \<le> rm_size (replay_memory demo_agent) \<and>
   (\<exists>s' fd. train_minibatch demo_ops 2 demo_agent = Inr s' \<and>
      last (trace s') = TrainOp fd \<and>
      x_placeholder fd ! 0 = [0] \<and> q_placeholder fd ! 0 = 11 / 2 \<and>
      action_placeholder fd ! 0 = [0, 1] \<and>
      x_placeholder fd ! 1 = [1] \<and> q_placeholder fd ! 1 = - 100 \<and>
      action_placeholder fd ! 1 = [0, 1])"
proof -
  obtain s' where h1: "train_minibatch demo_ops 2 demo_agent = Inr s'"
    using demo_train_minibatch by blast
  from feed_dict_alignment [OF h1 demo_enough] obtain nt t tp qs mq fd where
    gm: "fst (get_minibatch demo_ops (replay_memory demo_agent) 2 (world demo_agent)) = (nt, t)"
    and tp: "target_params demo_agent = Some tp"
    and rq: "run_q_output demo_ops tp (map t_next_state nt) = Inr qs"
    and mq: "max_axis1 qs = Inr mq"
    and tr: "last (trace s') = TrainOp fd"
    and nth: "\<forall>i < length (nt @ t).
        x_placeholder fd ! i = t_state ((nt @ t) ! i) \<and>
        q_placeholder fd ! i =
          t_reward ((nt @ t) ! i) +
          reward_discount (config demo_agent) * ((mq @ replicate (length t) 0) ! i) \<and>
        action_placeholder fd ! i =
          one_hot (t_action ((nt @ t) ! i)) (action_space_n demo_ops) \<and>
        (i < length nt \<longleftrightarrow> \<not> t_done ((nt @ t) ! i))"
    by blast
  from gm demo_get_minibatch have nt: "nt = [([0], 1, 1, [1], False)]"
    and t: "t = [([1], 1, - 100, [2], True)]" by simp_all
  from tp demo_target have "tp = 0" by simp
  with rq nt demo_q_output have "qs = [[0, 5]]" by simp
  with mq have mq': "mq = [5]" by simp
  have disc: "reward_discount (config demo_agent) = 9 / 10"
    by (simp add: demo_agent_def init_def update_target_network_def emit_def demo_config_def)
  have n: "action_space_n demo_ops = 2" by (simp add: demo_ops_def)
  have oh: "one_hot (Suc 0) 2 = [0, 1]" by (simp add: one_hot_def upt_rec)
  from nth have "x_placeholder fd ! 0 = [0] \<and> q_placeholder fd ! 0 = 11 / 2 \<and>
      action_placeholder fd ! 0 = [0, 1]"
    by (simp add: nt t mq' disc n oh)
  moreover from nth have "x_placeholder fd ! 1 = [1] \<and> q_placeholder fd ! 1 = - 100 \<and>
      action_placeholder fd ! 1 = [0, 1]"
    by (simp add: nt t mq' disc n oh)
  ultimately show ?thesis using h1 demo_enough tr by blast
qed

text \<open>
  Claim C7. When the replay memory holds fewer transitions than the minibatch size, the
  training step returns the agent as it was: nothing is sampled, no call is recorded in the
  trace, and the parameters of the session are unchanged.
\<close>

theorem train_minibatch_skips_small_memory:
  "rm_size (replay_memory s) < n \<Longrightarrow> train_minibatch ops n s = Inr s"
  by (simp add: train_minibatch_def)

theorem train_minibatch_skips_small_memory_witness:
  "rm_size (replay_memory demo_agent) < 3 \<and> train_minibatch demo_ops 3 demo_agent = Inr demo_agent"
proof -
  have h: "rm_size (replay_memory demo_agent) < 3"
    by (simp add: demo_agent_def init_def update_target_network_def emit_def demo_memory_def
      rm_size_def)
  from train_minibatch_skips_small_memory [OF h] h show ?thesis by simp
qed

text \<open>
  When every sampled transition is terminal, the training step passes the empty list of
  next states to the session. What happens next is the session's answer: if it returns an
  empty result (and the gradient step does not raise) the step completes and feeds the
  stored rewards; if it raises, the training step raises.
\<close>

lemma train_minibatch_all_terminal:
  assumes enough: "n \<le> rm_size (replay_memory s)"
    and sample: "random_sample ops (rm_items (replay_memory s)) n (world s) = (sample, w)"
    and terminal: "list_all t_done sample"
    and tp: "target_params s = Some tp"
    and empty: "run_q_output ops tp [] = Inr []"
    and step: "\<And>fd. \<exists>ps. run_train_op ops (session_params s) fd = Inr ps"
  shows "\<exists>s' fd. train_minibatch ops n s = Inr s' \<and>
     trace s' = trace s @ [GetMinibatch [] sample, PredictQ True [], TrainOp fd] \<and>
     x_placeholder fd = map t_state sample \<and>
     q_placeholder fd = map t_reward sample"
proof -
  from terminal have f1: "filter (\<lambda>tr. \<not> t_done tr) sample = []"
    and f2: "filter t_done sample = sample"
    by (simp_all add: list_all_iff)
  have gm: "get_minibatch ops (replay_memory s) n (world s) = (([], sample), w)"
    by (simp add: get_minibatch_def sample f1 f2)
  define s1 where "s1 = emit (GetMinibatch [] sample) (s\<lparr>world := w\<rparr>)"
  define s2 where "s2 = emit (PredictQ True []) s1"
  have pq: "predict_q_values ops [] True s1 = Inr ([], s2)"
    by (simp add: predict_q_values_def s1_def s2_def emit_def tp empty)
  define fd where "fd =
     \<lparr>x_placeholder = map t_state sample, q_placeholder = map t_reward sample,
      action_placeholder = map (\<lambda>item. one_hot (t_action item) (action_space_n ops)) sample\<rparr>"
  have gfd: "get_minibatch_feed_dict ops (config s2) [] [] sample = Inr fd"
    using get_minibatch_feed_dict_Inr [of "[]" "[]" ops "config s2" sample]
    by (simp add: fd_def)
  from step obtain ps where "run_train_op ops (session_params s) fd = Inr ps" by blast
  then have ps: "run_train_op ops (session_params s2) fd = Inr ps"
    by (simp add: s2_def s1_def emit_def)
  have "train_minibatch ops n s = Inr (emit (TrainOp fd) (s2\<lparr>session_params := ps\<rparr>))"
    using enough
    by (simp add: train_minibatch_def gm get_next_states_def s1_def [symmetric] pq gfd ps)
  moreover have "trace (emit (TrainOp fd) (s2\<lparr>session_params := ps\<rparr>)) =
      trace s @ [GetMinibatch [] sample, PredictQ True [], TrainOp fd]"
    by (simp add: s2_def s1_def emit_def)
  ultimately show ?thesis
    by (metis fd_def feed_dict.select_convs(1,2))
qed

lemma train_minibatch_all_terminal_raises:
  assumes enough: "n \<le> rm_size (replay_memory s)"
    and sample: "random_sample ops (rm_items (replay_memory s)) n (world s) = (sample, w)"
    and terminal: "list_all t_done sample"
    and tp: "target_params s = Some tp"
    and raises: "run_q_output ops tp [] = Inl e"
  shows "train_minibatch ops n s = Inl e"
proof -
  from terminal have f1: "filter (\<lambda>tr. \<not> t_done tr) sample = []"
    and f2: "filter t_done sample = sample"
    by (simp_all add: list_all_iff)
  have gm: "get_minibatch ops (replay_memory s) n (world s) = (([], sample), w)"
    by (simp add: get_minibatch_def sample f1 f2)
  have "predict_q_values ops [] True (emit (GetMinibatch [] sample) (s\<lparr>world := w\<rparr>)) = Inl e"
    by (simp add: predict_q_values_def emit_def tp raises)
  with enough show ?thesis
    by (simp add: train_minibatch_def gm get_next_states_def)
qed

text \<open>
  Claim C8. A replay memory that holds two terminal transitions and a minibatch size of 2:
  every sampled transition is terminal and the non-terminal partition is empty. The
  training step has no guard for this case and calls the forward evaluation of the target
  network with the bare empty list. A session that refuses the empty batch, while it
  accepts every other, makes the training step raise \<open>ValueError\<close> instead of completing.
\<close>

theorem empty_batch_raises:
  "2 \<le> rm_size (replay_memory terminal_agent) \<and>
   list_all t_done
     (fst (random_sample strict_ops (rm_items (replay_memory terminal_agent)) 2
        (world terminal_agent))) \<and>
   target_params terminal_agent = Some 0 \<and>
   run_q_output strict_ops 0 [[2]] = Inr [[0, 5]] \<and>
   run_q_output strict_ops 0 [] = Inl ValueError \<and>
   train_minibatch strict_ops 2 terminal_agent = Inl ValueError"
  by (simp add: train_minibatch_def get_minibatch_def get_next_states_def
      predict_q_values_def terminal_agent_def init_def update_target_network_def emit_def
      terminal_memory_def rm_size_def strict_ops_def demo_ops_def)

lemma roll_random_action_dice_eq:
  "roll_random_action_dice ops s =
     (fst (random_random ops (world s)) <
        decay (random_action_prob s) (min_random_action_prob (config s))
          (random_action_prob_decay (config s)),
      s\<lparr>random_action_prob :=
          decay (random_action_prob s) (min_random_action_prob (config s))
            (random_action_prob_decay (config s)),
        world := snd (random_random ops (world s))\<rparr>)"
  by (simp add: roll_random_action_dice_def decay_random_action_prob_def Let_def
      split: prod.splits)

lemma pick_action_Inr:
  assumes ok: "pick_action ops state s = Inr (a, s')"
  shows "if fst (random_random ops (world s)) <
           decay (random_action_prob s) (min_random_action_prob (config s))
             (random_action_prob_decay (config s))
      then a = fst (action_space_sample ops (snd (random_random ops (world s)))) \<and>
           s' = s\<lparr>random_action_prob :=
                   decay (random_action_prob s) (min_random_action_prob (config s))
                     (random_action_prob_decay (config s)),
                 world := snd (action_space_sample ops (snd (random_random ops (world s))))\<rparr>
      else (\<exists>q. run_q_output ops (session_params s) [state] = Inr q \<and> argmax q = Inr a) \<and>
           s' = s\<lparr>random_action_prob :=
                   decay (random_action_prob s) (min_random_action_prob (config s))
                     (random_action_prob_decay (config s)),
                 world := snd (random_random ops (world s)),
                 trace := trace s @ [PredictQ False [state]]\<rparr>"
proof (cases "fst (random_random ops (world s)) <
           decay (random_action_prob s) (min_random_action_prob (config s))
             (random_action_prob_decay (config s))")
  case True
  with ok show ?thesis
    by (auto simp: pick_action_def roll_random_action_dice_eq split: prod.splits)
next
  case False
  with ok show ?thesis
    by (auto simp: pick_action_def roll_random_action_dice_eq predict_q_values_def emit_def
        split: prod.splits sum.splits)
qed

text \<open>
  Claim C5. A call of the action selection that returns has decayed the exploration
  probability exactly once: the probability afterwards is one application of \<open>decay\<close> to
  the probability before, in the random branch as in the greedy branch, and the branch is
  decided by comparing the random draw with the probability already decayed.
\<close>

theorem pick_action_decays_once:
  assumes ok: "pick_action ops state s = Inr (a, s')"
  shows "random_action_prob s' =
       decay (random_action_prob s) (min_random_action_prob (config s))
         (random_action_prob_decay (config s)) \<and>
     (if fst (random_random ops (world s)) <
           decay (random_action_prob s) (min_random_action_prob (config s))
             (random_action_prob_decay (config s))
      then a = fst (action_space_sample ops (snd (random_random ops (world s)))) \<and>
           trace s' = trace s
      else (\<exists>q. run_q_output ops (session_params s) [state] = Inr q \<and> argmax q = Inr a) \<and>
           trace s' = trace s @ [PredictQ False [state]])"
  using pick_action_Inr [OF ok] by (auto split: if_splits)

lemma demo_prob: "random_action_prob demo_agent = 1"
  "min_random_action_prob (config demo_agent) = 1 / 10"
  "random_action_prob_decay (config demo_agent) = 1 / 100"
  by (simp_all add: demo_agent_def init_def update_target_network_def emit_def demo_config_def)

lemma demo_pick_random:
  "pick_action demo_ops [0] demo_agent = Inr (0, demo_agent\<lparr>random_action_prob := 99 / 100\<rparr>)"
  by (simp add: pick_action_def roll_random_action_dice_eq demo_prob decay_def)
     (simp add: demo_ops_def demo_agent_def init_def update_target_network_def emit_def)

lemma demo_pick_greedy:
  "pick_action greedy_ops [0] demo_agent =
     Inr (1, demo_agent\<lparr>random_action_prob := 99 / 100,
               trace := [UpdateTarget, PredictQ False [[0]]]\<rparr>)"
  by (simp add: pick_action_def roll_random_action_dice_eq demo_prob decay_def)
     (simp add: greedy_ops_def demo_ops_def demo_agent_def init_def update_target_network_def
        emit_def predict_q_values_def argmax_def)

theorem pick_action_decays_once_witness:
  "pick_action demo_ops [0] demo_agent =
     Inr (0, demo_agent\<lparr>random_action_prob := 99 / 100\<rparr>) \<and>
   pick_action greedy_ops [0] demo_agent =
     Inr (1, demo_agent\<lparr>random_action_prob := 99 / 100,
               trace := [UpdateTarget, PredictQ False [[0]]]\<rparr>) \<and>
   decay (random_action_prob demo_agent) (min_random_action_prob (config demo_agent))
     (random_action_prob_decay (config demo_agent)) = 99 / 100"
proof -
  from pick_action_decays_once [OF demo_pick_random]
  have "decay (random_action_prob demo_agent) (min_random_action_prob (config demo_agent))
     (random_action_prob_decay (config demo_agent)) = 99 / 100"
    by simp
  with demo_pick_random demo_pick_greedy show ?thesis
    using pick_action_decays_once [OF demo_pick_greedy] by simp
qed

lemma pick_action_prob:
  assumes "pick_action ops state s = Inr (a, s')"
  shows "random_action_prob s' =
       decay (random_action_prob s) (min_random_action_prob (config s))
         (random_action_prob_decay (config s))"
    and "config s' = config s"
  using pick_action_Inr [OF assms] by (auto split: if_splits)

lemma pick_actions_length:
  "pick_actions ops states s = Inr (ps, s') \<Longrightarrow> length ps = length states"
  by (induction states arbitrary: s ps) (auto split: sum.splits)

lemma pick_actions_floor:
  "pick_actions ops states s = Inr (ps, s') \<Longrightarrow>
   \<forall>p \<in> set ps. min_random_action_prob (config s) \<le> p"
proof (induction states arbitrary: s ps)
  case Nil
  then show ?case by simp
next
  case (Cons state states)
  from Cons.prems obtain a s1 ps' where
    p1: "pick_action ops state s = Inr (a, s1)"
    and rest: "pick_actions ops states s1 = Inr (ps', s')"
    and ps: "ps = random_action_prob s1 # ps'"
    by (auto split: sum.splits)
  from pick_action_prob [OF p1] have "min_random_action_prob (config s) \<le> random_action_prob s1"
    and c: "config s1 = config s"
    by (simp_all add: decay_def)
  with Cons.IH [OF rest] ps show ?case by simp
qed

lemma pick_actions_upper:
  "pick_actions ops states s = Inr (ps, s') \<Longrightarrow>
   0 \<le> random_action_prob_decay (config s) \<Longrightarrow>
   min_random_action_prob (config s) \<le> random_action_prob s \<Longrightarrow>
   sorted_wrt (\<lambda>p q. q \<le> p) (random_action_prob s # ps)"
proof (induction states arbitrary: s ps)
  case Nil
  then show ?case by simp
next
  case (Cons state states)
  from Cons.prems(1) obtain a s1 ps' where
    p1: "pick_action ops state s = Inr (a, s1)"
    and rest: "pick_actions ops states s1 = Inr (ps', s')"
    and ps: "ps = random_action_prob s1 # ps'"
    by (auto split: sum.splits)
  from pick_action_prob [OF p1] Cons.prems(2,3)
  have le: "random_action_prob s1 \<le> random_action_prob s"
    and fl: "min_random_action_prob (config s1) \<le> random_action_prob s1"
    and c: "config s1 = config s"
    by (simp_all add: decay_def)
  from Cons.IH [OF rest] Cons.prems(2) fl c
  have srt: "sorted_wrt (\<lambda>p q. q \<le> p) (random_action_prob s1 # ps')" by simp
  then have "\<forall>q \<in> set ps'. q \<le> random_action_prob s1" by simp
  with le have "\<forall>q \<in> set ps'. q \<le> random_action_prob s" by auto
  with srt le ps show ?case by simp
qed

text \<open>
  Claim C6, as amended. Across any sequence of action selections that return, the
  exploration probability after every call is at least the floor
  \<open>min_random_action_prob\<close>; and when the decay rate is not negative and the probability
  starts at or above the floor, the probabilities before the first call and after each call
  never increase. (The claim as stated fails for an initial probability below the floor:
  the first call raises it to the floor.)
\<close>

theorem exploration_probability_schedule:
  assumes "pick_actions ops states s = Inr (ps, s')"
  shows "length ps = length states \<and>
     (\<forall>p \<in> set ps. min_random_action_prob (config s) \<le> p) \<and>
     (0 \<le> random_action_prob_decay (config s) \<and>
      min_random_action_prob (config s) \<le> random_action_prob s \<longrightarrow>
        sorted_wrt (\<lambda>p q. q \<le> p) (random_action_prob s # ps))"
  using assms pick_actions_length pick_actions_floor pick_actions_upper by blast

lemma demo_pick_two:
  "pick_actions demo_ops [[0], [1]] demo_agent =
     Inr ([99 / 100, 49 / 50], demo_agent\<lparr>random_action_prob := 49 / 50\<rparr>)"
  by (simp add: pick_action_def roll_random_action_dice_eq decay_def
        demo_ops_def demo_agent_def init_def update_target_network_def emit_def
        demo_config_def)

theorem exploration_probability_schedule_witness:
  "pick_actions demo_ops [[0], [1]] demo_agent =
     Inr ([99 / 100, 49 / 50], demo_agent\<lparr>random_action_prob := 49 / 50\<rparr>) \<and>
   0 \<le> random_action_prob_decay (config demo_agent) \<and>
   min_random_action_prob (config demo_agent) \<le> random_action_prob demo_agent \<and>
   min_random_action_prob (config demo_agent) \<le> 49 / 50 \<and>
   sorted_wrt (\<lambda>p q. q \<le> p) [random_action_prob demo_agent, 99 / 100, 49 / 50]"
  using exploration_probability_schedule [OF demo_pick_two] demo_pick_two
  by (simp add: demo_prob)

theorem exploration_probability_counterexample:
  "random_action_prob low_agent = 0 \<and>
   map_sum id fst (pick_actions demo_ops [[0]] low_agent) = Inr [1 / 10]"
  by (simp add: pick_action_def roll_random_action_dice_eq decay_def
        demo_ops_def low_agent_def init_def update_target_network_def emit_def
        demo_config_def predict_q_values_def argmax_def)

lemma env_steps_append: "env_steps (xs @ ys) = env_steps xs @ env_steps ys"
  by (induction xs rule: env_steps.induct) simp_all

lemma mem_rewards_append: "mem_rewards (xs @ ys) = mem_rewards xs @ mem_rewards ys"
  by (induction xs rule: mem_rewards.induct) simp_all

lemma train_minibatch_frame:
  assumes "train_minibatch ops n s = Inr s'"
  shows "\<exists>rest. trace s' = trace s @ rest \<and> env_steps rest = [] \<and> mem_rewards rest = []"
    and "config s' = config s"
    and "stats s' = stats s"
    and "replay_memory s' = replay_memory s"
    and "frame_buffer s' = frame_buffer s"
    and "total_steps s' = total_steps s"
    and "random_action_prob s' = random_action_prob s"
    and "target_params s' = target_params s"
proof -
  have "(\<exists>rest. trace s' = trace s @ rest \<and> env_steps rest = [] \<and> mem_rewards rest = []) \<and>
    config s' = config s \<and> stats s' = stats s \<and> replay_memory s' = replay_memory s \<and>
    frame_buffer s' = frame_buffer s \<and> total_steps s' = total_steps s \<and>
    random_action_prob s' = random_action_prob s \<and> target_params s' = target_params s"
  proof (cases "rm_size (replay_memory s) < n")
    case True
    with assms have "s' = s" by (simp add: train_minibatch_def)
    then show ?thesis by simp
  next
    case False
    then have "n \<le> rm_size (replay_memory s)" by simp
    from train_minibatch_Inr [OF assms this] obtain nt t w fd ps where
      "s' = s\<lparr>world := w, session_params := ps,
            trace := trace s @ [GetMinibatch nt t, PredictQ True (get_next_states nt), TrainOp fd]\<rparr>"
      by metis
    then show ?thesis by simp
  qed
  then show "\<exists>rest. trace s' = trace s @ rest \<and> env_steps rest = [] \<and> mem_rewards rest = []"
    and "config s' = config s"
    and "stats s' = stats s"
    and "replay_memory s' = replay_memory s"
    and "frame_buffer s' = frame_buffer s"
    and "total_steps s' = total_steps s"
    and "random_action_prob s' = random_action_prob s"
    and "target_params s' = target_params s"
    by blast+
qed

lemma pick_action_frame:
  assumes "pick_action ops state s = Inr (a, s')"
  shows "\<exists>rest. trace s' = trace s @ rest \<and> env_steps rest = [] \<and> mem_rewards rest = []"
    and "config s' = config s"
    and "stats s' = stats s"
    and "replay_memory s' = replay_memory s"
    and "frame_buffer s' = frame_buffer s"
    and "total_steps s' = total_steps s"
    and "target_params s' = target_params s"
  using pick_action_Inr [OF assms] by (auto split: if_splits)

lemma episode_step_Inr:
  assumes ok: "episode_step ops state total_reward s = Inr ((next_state, total_reward', dn), s')"
  obtains a s1 ob r w s5 where
    "pick_action ops state s = Inr (a, s1)"
    "env_step ops a (world s1) = ((ob, r, dn), w)"
    "total_reward' = total_reward + r"
    "fb_get_state (fb_append ob (frame_buffer s1)) = Inr next_state"
    "s5 = s1\<lparr>world := w, frame_buffer := fb_append ob (frame_buffer s1),
             replay_memory :=
               rm_add (state, a, stored_reward ops r dn, next_state, dn) (replay_memory s1),
             trace := trace s1 @
               [EnvStep a ob r dn, FbAppend ob, FbGetState next_state,
                MemAdd (state, a, stored_reward ops r dn, next_state, dn)]\<rparr>"
    "train_minibatch ops (minibatch_size (config s1)) s5 = Inr s'"
proof -
  from ok obtain a s1 where pa: "pick_action ops state s = Inr (a, s1)"
    by (auto simp: episode_step_def split: sum.splits)
  obtain ob r d w where es: "env_step ops a (world s1) = ((ob, r, d), w)"
    by (metis surj_pair)
  from ok pa es obtain ns where gs: "fb_get_state (fb_append ob (frame_buffer s1)) = Inr ns"
    by (auto simp: episode_step_def Let_def emit_def split: sum.splits)
  define s5 where "s5 = s1\<lparr>world := w, frame_buffer := fb_append ob (frame_buffer s1),
             replay_memory :=
               rm_add (state, a, stored_reward ops r d, ns, d) (replay_memory s1),
             trace := trace s1 @
               [EnvStep a ob r d, FbAppend ob, FbGetState ns,
                MemAdd (state, a, stored_reward ops r d, ns, d)]\<rparr>"
  from ok pa es gs have
    "(case train_minibatch ops (minibatch_size (config s1)) s5 of
        Inl e \<Rightarrow> Inl e
      | Inr s6 \<Rightarrow> Inr ((ns, total_reward + r, d), s6)) =
     Inr ((next_state, total_reward', dn), s')"
    by (simp add: episode_step_def Let_def emit_def s5_def)
  then have "train_minibatch ops (minibatch_size (config s1)) s5 = Inr s'"
    and "ns = next_state" and "total_reward' = total_reward + r" and "d = dn"
    by (auto split: sum.splits)
  with pa es gs s5_def show thesis
    using that by blast
qed

lemma rm_add_last: "0 < rm_capacity m \<Longrightarrow> last (rm_items (rm_add tr m)) = tr"
  by (simp add: rm_add_def Let_def)

text \<open>
  Claim C4. On every environment step that completes, the transition added to the replay
  memory right after the step carries, as its reward, the failure penalty registered for
  the environment's id when \<open>done\<close> is reported and a penalty is registered, the raw reward
  when \<open>done\<close> is reported and none is registered, and the raw reward unmodified when
  \<open>done\<close> is false. It is the only transition added in the step and, when the memory has
  room for at least one transition, it is the newest one stored.
\<close>

theorem stored_reward_on_step:
  assumes ok: "episode_step ops state total_reward s = Inr ((next_state, total_reward', dn), s')"
  shows "\<exists>a ob r pre post.
     trace s' = trace s @ pre @
       [EnvStep a ob r dn, FbAppend ob, FbGetState next_state,
        MemAdd (state, a,
          (if dn then (case FAILURE_PENALTY (env_id ops) of None \<Rightarrow> r | Some p \<Rightarrow> p)
           else r),
          next_state, dn)] @ post \<and>
     env_steps pre = [] \<and> env_steps post = [] \<and>
     mem_rewards pre = [] \<and> mem_rewards post = [] \<and>
     (0 < rm_capacity (replay_memory s) \<longrightarrow>
        last (rm_items (replay_memory s')) =
          (state, a,
           (if dn then (case FAILURE_PENALTY (env_id ops) of None \<Rightarrow> r | Some p \<Rightarrow> p)
            else r),
           next_state, dn))"
proof -
  from ok obtain a s1 ob r w s5 where
    pa: "pick_action ops state s = Inr (a, s1)"
    and s5: "s5 = s1\<lparr>world := w, frame_buffer := fb_append ob (frame_buffer s1),
             replay_memory :=
               rm_add (state, a, stored_reward ops r dn, next_state, dn) (replay_memory s1),
             trace := trace s1 @
               [EnvStep a ob r dn, FbAppend ob, FbGetState next_state,
                MemAdd (state, a, stored_reward ops r dn, next_state, dn)]\<rparr>"
    and tm: "train_minibatch ops (minibatch_size (config s1)) s5 = Inr s'"
    by (rule episode_step_Inr)
  from pick_action_frame(1) [OF pa] obtain pre where
    pre: "trace s1 = trace s @ pre" "env_steps pre = []" "mem_rewards pre = []" by blast
  from train_minibatch_frame(1) [OF tm] obtain post where
    post: "trace s' = trace s5 @ post" "env_steps post = []" "mem_rewards post = []" by blast
  have rm: "replay_memory s' = rm_add (state, a, stored_reward ops r dn, next_state, dn)
      (replay_memory s)"
    using train_minibatch_frame(4) [OF tm] pick_action_frame(4) [OF pa] by (simp add: s5)
  have cap: "rm_capacity (rm_add tr m) = rm_capacity m" for tr and m :: "'b replay_memory"
    by (simp add: rm_add_def Let_def)
  have "trace s' = trace s @ pre @
       [EnvStep a ob r dn, FbAppend ob, FbGetState next_state,
        MemAdd (state, a, stored_reward ops r dn, next_state, dn)] @ post"
    using pre post by (simp add: s5)
  moreover have "0 < rm_capacity (replay_memory s) \<longrightarrow>
        last (rm_items (replay_memory s')) =
          (state, a, stored_reward ops r dn, next_state, dn)"
    by (simp add: rm rm_add_last)
  ultimately have "trace s' = trace s @ pre @
       [EnvStep a ob r dn, FbAppend ob, FbGetState next_state,
        MemAdd (state, a,
          (if dn then (case FAILURE_PENALTY (env_id ops) of None \<Rightarrow> r | Some p \<Rightarrow> p)
           else r),
          next_state, dn)] @ post \<and>
     env_steps pre = [] \<and> env_steps post = [] \<and>
     mem_rewards pre = [] \<and> mem_rewards post = [] \<and>
     (0 < rm_capacity (replay_memory s) \<longrightarrow>
        last (rm_items (replay_memory s')) =
          (state, a,
           (if dn then (case FAILURE_PENALTY (env_id ops) of None \<Rightarrow> r | Some p \<Rightarrow> p)
            else r),
           next_state, dn))"
    using pre(2,3) post(2,3) by (simp add: stored_reward_def)
  then show ?thesis
    by (intro exI)
qed

lemma episode_loop_inv:
  "episode_loop ops max_steps state total_reward steps dn s = Inr ((ret, n), s') \<Longrightarrow>
   \<exists>rest. trace s' = trace s @ rest \<and>
     ret = total_reward + sum_list (map fst (env_steps rest)) \<and>
     n = steps + length (env_steps rest) \<and>
     mem_rewards rest = map (\<lambda>(r, d). stored_reward ops r d) (env_steps rest) \<and>
     stats s' = stats s \<and> config s' = config s \<and>
     total_steps s' = total_steps s + length (env_steps rest)"
proof (induction ops max_steps state total_reward steps dn s rule: episode_loop.induct)
  case (1 ops max_steps state total_reward steps dn s)
  show ?case
  proof (cases "\<not> dn \<and> steps < max_steps")
    case False
    with "1.prems" have "ret = total_reward" "n = steps" "s' = s"
      by (auto simp: episode_loop.simps [of ops max_steps state total_reward steps dn s])
    then show ?thesis by simp
  next
    case True
    with "1.prems" obtain next_state total_reward' dn' s6 where
      st: "episode_step ops state total_reward s = Inr ((next_state, total_reward', dn'), s6)"
      and lp: "episode_loop ops max_steps next_state total_reward' (steps + 1) dn'
                 (s6\<lparr>total_steps := total_steps s6 + 1\<rparr>) = Inr ((ret, n), s')"
      by (auto simp: episode_loop.simps [of ops max_steps state total_reward steps dn s]
          split: sum.splits)
    from "1.IH" [OF True st refl refl refl lp] obtain rest where
      rest: "trace s' = trace s6 @ rest"
      "ret = total_reward' + sum_list (map fst (env_steps rest))"
      "n = steps + 1 + length (env_steps rest)"
      "mem_rewards rest = map (\<lambda>(r, d). stored_reward ops r d) (env_steps rest)"
      "stats s' = stats s6" "config s' = config s6"
      "total_steps s' = total_steps s6 + 1 + length (env_steps rest)"
      by auto
    from st obtain a s1 ob r w s5 where
      pa: "pick_action ops state s = Inr (a, s1)"
      and tot: "total_reward' = total_reward + r"
      and s5: "s5 = s1\<lparr>world := w, frame_buffer := fb_append ob (frame_buffer s1),
             replay_memory :=
               rm_add (state, a, stored_reward ops r dn', next_state, dn') (replay_memory s1),
             trace := trace s1 @
               [EnvStep a ob r dn', FbAppend ob, FbGetState next_state,
                MemAdd (state, a, stored_reward ops r dn', next_state, dn')]\<rparr>"
      and tm: "train_minibatch ops (minibatch_size (config s1)) s5 = Inr s6"
      by (rule episode_step_Inr)
    from pick_action_frame(1) [OF pa] obtain pre where
      pre: "trace s1 = trace s @ pre" "env_steps pre = []" "mem_rewards pre = []" by blast
    from train_minibatch_frame(1) [OF tm] obtain post where
      post: "trace s6 = trace s5 @ post" "env_steps post = []" "mem_rewards post = []" by blast
    define step where "step = pre @
       [EnvStep a ob r dn', FbAppend ob, FbGetState next_state,
        MemAdd (state, a, stored_reward ops r dn', next_state, dn')] @ post"
    have tr6: "trace s6 = trace s @ step"
      using pre post by (simp add: s5 step_def)
    have es: "env_steps step = [(r, dn')]"
      using pre post by (simp add: step_def env_steps_append)
    have mr: "mem_rewards step = [stored_reward ops r dn']"
      using pre post by (simp add: step_def mem_rewards_append)
    have fr: "stats s6 = stats s" "config s6 = config s" "total_steps s6 = total_steps s"
      using train_minibatch_frame(2,3,6) [OF tm] pick_action_frame(2,3,6) [OF pa]
      by (simp_all add: s5)
    have "trace s' = trace s @ (step @ rest)"
      using rest(1) tr6 by simp
    moreover have "ret = total_reward + sum_list (map fst (env_steps (step @ rest)))"
      using rest(2) tot es by (simp add: env_steps_append)
    moreover have "n = steps + length (env_steps (step @ rest))"
      using rest(3) es by (simp add: env_steps_append)
    moreover have "mem_rewards (step @ rest) =
        map (\<lambda>(r, d). stored_reward ops r d) (env_steps (step @ rest))"
      using rest(4) es mr by (simp add: env_steps_append mem_rewards_append)
    moreover have "stats s' = stats s" "config s' = config s"
      "total_steps s' = total_steps s + length (env_steps (step @ rest))"
      using rest(5,6,7) fr es by (simp_all add: env_steps_append)
    ultimately show ?thesis by blast
  qed
qed

lemmas model_defs =
  train_episode_def episode_step_def pick_action_def roll_random_action_dice_eq decay_def
  train_minibatch_def get_minibatch_def get_next_states_def predict_q_values_def argmax_def
  get_minibatch_feed_dict_def one_hot_def upt_rec stored_reward_def FAILURE_PENALTY_def
  fb_append_def fb_get_state_def rm_add_def rm_size_def emit_def log_episode_def
  update_target_network_def init_def FrameBuffer_def get_frame_resizer_def
  RESIZE_STATE_FRAMES_def Let_def

lemmas demo_defs = demo_ops_def demo_config_def demo_memory_def demo_agent_def

lemma demo_terminal_step:
  "\<exists>s'. episode_step demo_ops [1] 1 (demo_agent\<lparr>world := 1\<rparr>) = Inr (([2], 2, True), s')"
  by (simp add: model_defs demo_defs)



text \<open>
  Claim C3. The target network is synchronised once at construction, but during training
  the test \<open>total_steps % target_update_freq == 0\<close> is made only after a whole episode.
  With \<open>target_update_freq = 3\<close> and two episodes of two steps each, the step counter goes
  from 0 to 4 and passes 3, yet the only synchronisation in the trace is the one of the
  construction: the target parameters are still those of the start while the session's
  parameters have been updated four times.
\<close>

theorem target_sync_misses_boundary:
  "trace demo_agent = [UpdateTarget] \<and>
   target_update_freq (config demo_agent) = 3 \<and>
   map_sum id (\<lambda>s. (total_steps s, count_list (trace s) UpdateTarget, target_params s,
      session_params s)) (train demo_ops 2 10 None demo_agent) = Inr (4, 1, Some 0, 4)"
  by (simp add: model_defs demo_defs episode_loop.simps numeral_2_eq_2)

text \<open>
  The frame buffer is not cleared at the start of an episode. In a training run of two
  episodes from a freshly constructed agent with two frames per state, the environment
  resets to observation 0 and then shows 1 and 2. The first state exposed in the first
  episode is \<open>[0, 0]\<close>, but the first state exposed in the second episode is \<open>[2, 0]\<close>:
  it still holds the last frame of the first episode.
\<close>

theorem stale_frames_counterexample:
  "map_sum id (first_states False \<circ> trace) (train demo_ops 2 10 None two_frame_agent) =
     Inr [[0, 0], [2, 0]]"
  by (simp add: model_defs demo_defs two_frame_agent_def episode_loop.simps numeral_2_eq_2)

lemma train_episode_Inr:
  assumes ok: "train_episode ops max_steps s = Inr ((ret, n), s')"
  obtains ob w state rest where
    "env_reset ops (world s) = (ob, w)"
    "fb_get_state (fb_append ob (frame_buffer s)) = Inr state"
    "trace s' = trace s @ [EnvReset ob, FbAppend ob, FbGetState state] @ rest"
    "ret = sum_list (map fst (env_steps rest))"
    "n = length (env_steps rest)"
    "mem_rewards rest = map (\<lambda>(r, d). stored_reward ops r d) (env_steps rest)"
    "stats s' = stats s"
    "config s' = config s"
    "total_steps s' = total_steps s + n"
proof -
  obtain ob w where er: "env_reset ops (world s) = (ob, w)"
    by (metis surj_pair)
  define s2 where "s2 = s\<lparr>world := w, frame_buffer := fb_append ob (frame_buffer s),
      trace := trace s @ [EnvReset ob, FbAppend ob]\<rparr>"
  from ok er obtain state where
    gs: "fb_get_state (fb_append ob (frame_buffer s)) = Inr state"
    and lp: "episode_loop ops max_steps state 0 0 False (emit (FbGetState state) s2) =
      Inr ((ret, n), s')"
    by (auto simp: train_episode_def Let_def emit_def s2_def split: sum.splits)
  from episode_loop_inv [OF lp] obtain rest where
    "trace s' = trace (emit (FbGetState state) s2) @ rest"
    "ret = 0 + sum_list (map fst (env_steps rest))"
    "n = 0 + length (env_steps rest)"
    "mem_rewards rest = map (\<lambda>(r, d). stored_reward ops r d) (env_steps rest)"
    "stats s' = stats (emit (FbGetState state) s2)"
    "config s' = config (emit (FbGetState state) s2)"
    "total_steps s' = total_steps (emit (FbGetState state) s2) + length (env_steps rest)"
    by blast
  then have "trace s' = trace s @ [EnvReset ob, FbAppend ob, FbGetState state] @ rest"
    "ret = sum_list (map fst (env_steps rest))"
    "n = length (env_steps rest)"
    "mem_rewards rest = map (\<lambda>(r, d). stored_reward ops r d) (env_steps rest)"
    "stats s' = stats s" "config s' = config s" "total_steps s' = total_steps s + n"
    by (simp_all add: emit_def s2_def)
  with er gs show thesis using that by blast
qed

lemma fb_get_state_after_append:
  assumes "fb_get_state (fb_append ob fb) = Inr st"
  shows "length (fb_frames (fb_append ob fb)) = fb_frames_per_state fb"
    and "fb_frames_per_state (fb_append ob fb) = fb_frames_per_state fb"
  using assms
  by (auto simp: fb_get_state_def fb_append_def Let_def split: if_splits)

lemma episode_step_buffer:
  assumes ok: "episode_step ops state total_reward s = Inr ((next_state, total_reward', dn), s')"
  shows "length (fb_frames (frame_buffer s')) = fb_frames_per_state (frame_buffer s)"
    and "fb_frames_per_state (frame_buffer s') = fb_frames_per_state (frame_buffer s)"
proof -
  from ok obtain a s1 ob r w s5 where
    pa: "pick_action ops state s = Inr (a, s1)"
    and gs: "fb_get_state (fb_append ob (frame_buffer s1)) = Inr next_state"
    and s5: "s5 = s1\<lparr>world := w, frame_buffer := fb_append ob (frame_buffer s1),
             replay_memory :=
               rm_add (state, a, stored_reward ops r dn, next_state, dn) (replay_memory s1),
             trace := trace s1 @
               [EnvStep a ob r dn, FbAppend ob, FbGetState next_state,
                MemAdd (state, a, stored_reward ops r dn, next_state, dn)]\<rparr>"
    and tm: "train_minibatch ops (minibatch_size (config s1)) s5 = Inr s'"
    by (rule episode_step_Inr)
  have fb: "frame_buffer s' = fb_append ob (frame_buffer s)"
    using train_minibatch_frame(5) [OF tm] pick_action_frame(5) [OF pa] by (simp add: s5)
  from gs pick_action_frame(5) [OF pa]
  have "fb_get_state (fb_append ob (frame_buffer s)) = Inr next_state" by simp
  from fb_get_state_after_append [OF this] fb
  show "length (fb_frames (frame_buffer s')) = fb_frames_per_state (frame_buffer s)"
    and "fb_frames_per_state (frame_buffer s') = fb_frames_per_state (frame_buffer s)"
    by simp_all
qed

lemma episode_loop_buffer:
  "episode_loop ops max_steps state total_reward steps dn s = Inr (res, s') \<Longrightarrow>
   length (fb_frames (frame_buffer s)) = fb_frames_per_state (frame_buffer s) \<Longrightarrow>
   length (fb_frames (frame_buffer s')) = fb_frames_per_state (frame_buffer s') \<and>
   fb_frames_per_state (frame_buffer s') = fb_frames_per_state (frame_buffer s)"
proof (induction ops max_steps state total_reward steps dn s rule: episode_loop.induct)
  case (1 ops max_steps state total_reward steps dn s)
  show ?case
  proof (cases "\<not> dn \<and> steps < max_steps")
    case False
    with "1.prems" have "s' = s"
      by (auto simp: episode_loop.simps [of ops max_steps state total_reward steps dn s])
    with "1.prems"(2) show ?thesis by simp
  next
    case True
    with "1.prems"(1) obtain next_state total_reward' dn' s6 where
      st: "episode_step ops state total_reward s = Inr ((next_state, total_reward', dn'), s6)"
      and lp: "episode_loop ops max_steps next_state total_reward' (steps + 1) dn'
                 (s6\<lparr>total_steps := total_steps s6 + 1\<rparr>) = Inr (res, s')"
      by (auto simp: episode_loop.simps [of ops max_steps state total_reward steps dn s]
          split: sum.splits)
    from episode_step_buffer [OF st]
    have full: "length (fb_frames (frame_buffer (s6\<lparr>total_steps := total_steps s6 + 1\<rparr>))) =
        fb_frames_per_state (frame_buffer (s6\<lparr>total_steps := total_steps s6 + 1\<rparr>))"
      and same: "fb_frames_per_state (frame_buffer s6) = fb_frames_per_state (frame_buffer s)"
      by simp_all
    from "1.IH" [OF True st refl refl refl lp full] same show ?thesis by simp
  qed
qed

lemma train_episode_buffer:
  assumes ok: "train_episode ops max_steps s = Inr (res, s')"
  shows "length (fb_frames (frame_buffer s')) = fb_frames_per_state (frame_buffer s') \<and>
     fb_frames_per_state (frame_buffer s') = fb_frames_per_state (frame_buffer s)"
proof -
  obtain ob w where er: "env_reset ops (world s) = (ob, w)"
    by (metis surj_pair)
  define s2 where "s2 = s\<lparr>world := w, frame_buffer := fb_append ob (frame_buffer s),
      trace := trace s @ [EnvReset ob, FbAppend ob]\<rparr>"
  from ok er obtain state where
    gs: "fb_get_state (fb_append ob (frame_buffer s)) = Inr state"
    and lp: "episode_loop ops max_steps state 0 0 False (emit (FbGetState state) s2) =
      Inr (res, s')"
    by (auto simp: train_episode_def Let_def emit_def s2_def split: sum.splits)
  from fb_get_state_after_append [OF gs]
  have full: "length (fb_frames (frame_buffer (emit (FbGetState state) s2))) =
      fb_frames_per_state (frame_buffer (emit (FbGetState state) s2))"
    and same: "fb_frames_per_state (frame_buffer (emit (FbGetState state) s2)) =
      fb_frames_per_state (frame_buffer s)"
    by (simp_all add: emit_def s2_def)
  from episode_loop_buffer [OF lp full] same show ?thesis by simp
qed

text \<open>
  Claim C9, as amended. At the start of every episode that completes, the first three calls
  are the reset of the environment, one append of the reset observation to the frame
  buffer, and the first \<open>get_state\<close>. The buffer is not cleared: when it is empty (the first
  episode) the state exposed is the reset observation in all places, and when it is full
  the state exposed is the window of before the reset without its oldest frame, followed by
  the reset observation. After the episode the buffer is full, so that every later episode
  starts from a full buffer.
\<close>

theorem episode_seeds_frame_buffer:
  assumes ok: "train_episode ops max_steps s = Inr (res, s')"
  shows "\<exists>st rest.
     trace s' = trace s @
       [EnvReset (fst (env_reset ops (world s))),
        FbAppend (fst (env_reset ops (world s))), FbGetState st] @ rest \<and>
     (fb_frames (frame_buffer s) = [] \<longrightarrow>
        st = replicate (fb_frames_per_state (frame_buffer s))
               (fb_preprocessor (frame_buffer s) (fst (env_reset ops (world s))))) \<and>
     (fb_frames (frame_buffer s) \<noteq> [] \<and>
      length (fb_frames (frame_buffer s)) = fb_frames_per_state (frame_buffer s) \<longrightarrow>
        st = tl (fb_frames (frame_buffer s)) @
               [fb_preprocessor (frame_buffer s) (fst (env_reset ops (world s)))]) \<and>
     length (fb_frames (frame_buffer s')) = fb_frames_per_state (frame_buffer s') \<and>
     fb_frames_per_state (frame_buffer s') = fb_frames_per_state (frame_buffer s)"
proof -
  obtain ret n where res: "res = (ret, n)" by (cases res)
  from ok [unfolded res] obtain ob w state rest where
    er: "env_reset ops (world s) = (ob, w)"
    and gs: "fb_get_state (fb_append ob (frame_buffer s)) = Inr state"
    and tr: "trace s' = trace s @ [EnvReset ob, FbAppend ob, FbGetState state] @ rest"
    by (rule train_episode_Inr)
  from gs have st: "state = fb_frames (fb_append ob (frame_buffer s))"
    by (auto simp: fb_get_state_def split: if_splits)
  have ob: "fst (env_reset ops (world s)) = ob" using er by simp
  have "trace s' = trace s @
       [EnvReset (fst (env_reset ops (world s))),
        FbAppend (fst (env_reset ops (world s))), FbGetState state] @ rest"
    using tr ob by simp
  moreover have "fb_frames (frame_buffer s) = [] \<longrightarrow>
        state = replicate (fb_frames_per_state (frame_buffer s))
               (fb_preprocessor (frame_buffer s) (fst (env_reset ops (world s))))"
    by (simp add: st ob fb_append_def)
  moreover have "fb_frames (frame_buffer s) \<noteq> [] \<and>
      length (fb_frames (frame_buffer s)) = fb_frames_per_state (frame_buffer s) \<longrightarrow>
        state = tl (fb_frames (frame_buffer s)) @
               [fb_preprocessor (frame_buffer s) (fst (env_reset ops (world s)))]"
  proof
    assume full: "fb_frames (frame_buffer s) \<noteq> [] \<and>
      length (fb_frames (frame_buffer s)) = fb_frames_per_state (frame_buffer s)"
    then obtain x xs where old: "fb_frames (frame_buffer s) = x # xs"
      by (cases "fb_frames (frame_buffer s)") auto
    with full have n: "fb_frames_per_state (frame_buffer s) = Suc (length xs)" by simp
    show "state = tl (fb_frames (frame_buffer s)) @
               [fb_preprocessor (frame_buffer s) (fst (env_reset ops (world s)))]"
      by (simp add: st ob fb_append_def Let_def old n)
  qed
  ultimately show ?thesis
    using train_episode_buffer [OF ok] by blast
qed

lemma after_first_episode_buffer:
  "fb_frames (frame_buffer after_first_episode) = [1, 2]"
  "fb_frames_per_state (frame_buffer after_first_episode) = 2"
  "fb_preprocessor (frame_buffer after_first_episode) 0 = 0"
  "fst (env_reset demo_ops (world after_first_episode)) = 0"
  by (simp_all add: after_first_episode_def two_frame_agent_def model_defs demo_defs
      episode_loop.simps numeral_2_eq_2)

lemma after_first_episode_runs:
  "\<exists>s'. train_episode demo_ops 10 after_first_episode = Inr ((2, 2), s')"
  by (simp add: after_first_episode_def two_frame_agent_def model_defs demo_defs
      episode_loop.simps numeral_2_eq_2)

theorem episode_seeds_frame_buffer_witness:
  "fb_frames (frame_buffer after_first_episode) = [1, 2] \<and>
   fb_frames_per_state (frame_buffer after_first_episode) = 2 \<and>
   (\<exists>s' rest. train_episode demo_ops 10 after_first_episode = Inr ((2, 2), s') \<and>
      trace s' = trace after_first_episode @
        [EnvReset 0, FbAppend 0, FbGetState [2, 0]] @ rest)"
proof -
  obtain s' where h: "train_episode demo_ops 10 after_first_episode = Inr ((2, 2), s')"
    using after_first_episode_runs by blast
  from episode_seeds_frame_buffer [OF h] after_first_episode_buffer
  have "\<exists>rest. trace s' = trace after_first_episode @
        [EnvReset 0, FbAppend 0, FbGetState [2, 0]] @ rest"
    by auto
  with h after_first_episode_buffer show ?thesis by blast
qed






theorem stored_reward_on_step_witness:
  "\<exists>s'. episode_step demo_ops [1] 1 (demo_agent\<lparr>world := 1\<rparr>) = Inr (([2], 2, True), s') \<and>
     0 < rm_capacity (replay_memory (demo_agent\<lparr>world := 1\<rparr>)) \<and>
     t_reward (last (rm_items (replay_memory s'))) = - 100"
proof -
  obtain s' where
    h: "episode_step demo_ops [1] 1 (demo_agent\<lparr>world := 1\<rparr>) = Inr (([2], 2, True), s')"
    using demo_terminal_step by blast
  have cap: "0 < rm_capacity (replay_memory (demo_agent\<lparr>world := 1\<rparr>))"
    by (simp add: model_defs demo_defs)
  have pen: "FAILURE_PENALTY (env_id demo_ops) = Some (- 100)"
    by (simp add: FAILURE_PENALTY_def demo_ops_def)
  from stored_reward_on_step [OF h] cap pen
  have "t_reward (last (rm_items (replay_memory s'))) = - 100"
    by auto
  with h cap show ?thesis by blast
qed

end
